theory Spec2Isabelle
  imports Main
begin

section \<open>JavaScript values, objects and promises\<close>

text \<open>
  The examples are JavaScript. A value is \<open>undefined\<close>, \<open>null\<close>, a boolean, a number
  (integers are all the examples need), a string, an array, a plain object, an error
  object (by its message) or a function (by its name). A decoded JSON payload and a
  caught failure are both values of this type.
\<close>

datatype jsval =
    Undefined
  | Null
  | JBool bool
  | JNum int
  | JStr string
  | JArr "jsval list"
  | JObj "(string \<times> jsval) list"
  | JError string
  | JFunction string

text \<open>
  An object is a finite map from property names to values. Reading a property that was
  never set yields \<open>undefined\<close>, as \<open>resource.loading\<close> does on a new store.
\<close>

type_synonym obj = "string \<rightharpoonup> jsval"

definition get_prop :: "obj \<Rightarrow> string \<Rightarrow> jsval" where
  "get_prop ob k = (case ob k of None \<Rightarrow> Undefined | Some v \<Rightarrow> v)"

text \<open>
  The consumers branch on \<open>loading ? ... : error ? ... : ...\<close>; this is the truthiness
  of a value in a condition.
\<close>

fun truthy :: "jsval \<Rightarrow> bool" where
  "truthy Undefined = False"
| "truthy Null = False"
| "truthy (JBool b) = b"
| "truthy (JNum n) = (n \<noteq> 0)"
| "truthy (JStr s) = (s \<noteq> [])"
| "truthy v = True"

text \<open>A promise, once settled, is fulfilled with a value or rejected with a reason.\<close>

datatype 'a settled = Fulfilled 'a | Rejected jsval

text \<open>\<open>p.then(f)\<close>: a rejection passes through, a fulfilment is handed to \<open>f\<close>.\<close>

definition then_promise :: "'a settled \<Rightarrow> ('a \<Rightarrow> 'b settled) \<Rightarrow> 'b settled" where
  "then_promise p f = (case p of Rejected e \<Rightarrow> Rejected e | Fulfilled x \<Rightarrow> f x)"

text \<open>
  A response of the network is known to the code only through its \<open>json()\<close> method:
  the decoded body, or the failure of decoding it. The test's mock is
  \<open>{ json: () => "Some data" }\<close>.
\<close>

datatype response = Response (json: "jsval settled")

section \<open>Statements that may throw\<close>

text \<open>
  A statement runs on a state and completes normally (\<open>Inr\<close>) or throws a value
  (\<open>Inl\<close>); either way it returns the state it left behind.
\<close>

type_synonym ('s, 'a) js = "'s \<Rightarrow> (jsval + 'a) \<times> 's"

definition seq :: "('s, 'a) js \<Rightarrow> ('a \<Rightarrow> ('s, 'b) js) \<Rightarrow> ('s, 'b) js" where
  "seq m f = (\<lambda>s. case m s of (Inl e, s') \<Rightarrow> (Inl e, s') | (Inr x, s') \<Rightarrow> f x s')"

text \<open>Resuming after \<open>await p\<close>: the value of \<open>p\<close>, or its rejection thrown.\<close>

definition await :: "'a settled \<Rightarrow> ('s, 'a) js" where
  "await p = (\<lambda>s. case p of Fulfilled x \<Rightarrow> (Inr x, s) | Rejected e \<Rightarrow> (Inl e, s))"

text \<open>
  \<open>try { body } catch (error) { handler } finally { fin }\<close>: the handler runs on what
  the body throws, \<open>fin\<close> runs in every case, and a throw of \<open>fin\<close> replaces the
  completion of what ran before it.
\<close>

definition try_catch_finally ::
  "('s, unit) js \<Rightarrow> (jsval \<Rightarrow> ('s, unit) js) \<Rightarrow> ('s, unit) js \<Rightarrow> ('s, unit) js" where
  "try_catch_finally body handler fin = (\<lambda>s.
     case body s of (r1, s1) \<Rightarrow>
     case (case r1 of Inl e \<Rightarrow> handler e s1 | Inr u \<Rightarrow> (Inr u, s1)) of (r2, s2) \<Rightarrow>
     case fin s2 of (r3, s3) \<Rightarrow>
     (case r3 of Inl e \<Rightarrow> (Inl e, s3) | Inr u \<Rightarrow> (r2, s3)))"

text \<open>
  The promise an \<open>async\<close> function returns: rejected with what the body throws,
  fulfilled with \<open>undefined\<close> when the body ends without a \<open>return\<close>.
\<close>

definition async_result :: "(jsval + unit) \<Rightarrow> jsval settled" where
  "async_result r = (case r of Inl e \<Rightarrow> Rejected e | Inr u \<Rightarrow> Fulfilled Undefined)"

section \<open>The network\<close>

text \<open>
  The global \<open>fetch\<close> is the environment's. All the model keeps of it is the log of the
  URLs it was called with, in order; the promise of a call is named by its position in
  the log.
\<close>

record net =
  requests :: "string list"

text \<open>
  \<open>function fetchJSON(url) { return fetch(url).then(resp => resp.json()); }\<close>
  (the same in fetchStore.js and useFetch.js). Calling it issues the request; its
  promise settles as \<open>fetchJSON_settled\<close> says once the network has answered.
\<close>

definition fetchJSON :: "string \<Rightarrow> 'a net_scheme \<Rightarrow> nat \<times> 'a net_scheme" where
  "fetchJSON url w = (length (requests w), w\<lparr>requests := requests w @ [url]\<rparr>)"

definition fetchJSON_settled :: "response settled \<Rightarrow> jsval settled" where
  "fetchJSON_settled r = then_promise r json"

section \<open>fetchStore.js: the store implementation\<close>

text \<open>
  The world of a store fetcher: the request log, the store object \<open>resource\<close>, the
  \<open>baseURL\<close> its method closes over, and the calls of \<open>resource.fetch\<close> that are
  suspended at their \<open>await\<close> (each named by the promise it waits for).
\<close>

record store_world = net +
  resource :: obj

record fetcher = store_world +
  baseURL :: string
  pending :: "nat list"

text \<open>\<open>resource.k = v\<close> on the store object.\<close>

definition assign :: "string \<Rightarrow> jsval \<Rightarrow> ('a store_world_scheme, unit) js" where
  "assign k v = (\<lambda>w. (Inr (), w\<lparr>resource := (resource w)(k \<mapsto> v)\<rparr>))"

text \<open>
  \<open>fetchStore(baseURL)\<close> returns \<open>store({ async fetch(path) {...} })\<close>: an object whose
  only property is the method. Constructing it issues no request and starts no call.
\<close>

definition fetchStore :: "string \<Rightarrow> fetcher" where
  "fetchStore base =
     \<lparr>requests = [], resource = [''fetch'' \<mapsto> JFunction ''fetch''],
      baseURL = base, pending = []\<rparr>"

text \<open>
  \<open>resource.fetch(path)\<close> up to its \<open>await\<close>: line 6 sets \<open>loading\<close>, line 8 calls
  \<open>fetchJSON(baseURL + path)\<close> and suspends on its promise.
\<close>

definition fetch_call ::
  "string \<Rightarrow> string \<Rightarrow> 'a store_world_scheme \<Rightarrow> nat \<times> 'a store_world_scheme" where
  "fetch_call base path w =
     fetchJSON (base @ path) (snd (assign ''loading'' (JBool True) w))"

text \<open>
  The rest of the body, run when the awaited promise has settled as \<open>r\<close>: lines 7 to 14,
  \<open>try { resource.data = await ...; resource.error = undefined; }
   catch (error) { resource.error = error; } finally { resource.loading = false; }\<close>
\<close>

definition fetch_resume :: "response settled \<Rightarrow> ('a store_world_scheme, unit) js" where
  "fetch_resume r =
     try_catch_finally
       (seq (await (fetchJSON_settled r)) (\<lambda>d.
          seq (assign ''data'' d) (\<lambda>_. assign ''error'' Undefined)))
       (\<lambda>error. assign ''error'' error)
       (assign ''loading'' (JBool False))"

text \<open>
  One whole call with nothing else happening in between: how the promise of
  \<open>resource.fetch(path)\<close> settles when the network answers \<open>r\<close>, and the state then.
\<close>

definition fetch_awaited ::
  "string \<Rightarrow> string \<Rightarrow> response settled \<Rightarrow> 'a store_world_scheme
   \<Rightarrow> jsval settled \<times> 'a store_world_scheme" where
  "fetch_awaited base path r w =
     (case fetch_resume r (snd (fetch_call base path w)) of
        (c, w') \<Rightarrow> (async_result c, w'))"

section \<open>useFetch.js (poke-hook): the hook implementation\<close>

text \<open>
  \<open>const [state, setState] = useState({})\<close>: the state cell starts as the empty object.
  Every \<open>setState\<close> of the hook passes an updater function; React applies the updaters
  in the order they were queued, each to the state the one before left, which is what
  applying them at once gives.
\<close>

record hook_world = net +
  state :: obj

record hook_fetcher = hook_world +
  useFetch_baseURL :: string
  useFetch_pending :: "nat list"

definition setState :: "(obj \<Rightarrow> obj) \<Rightarrow> ('a hook_world_scheme, unit) js" where
  "setState f = (\<lambda>w. (Inr (), w\<lparr>state := f (state w)\<rparr>))"

definition useFetch :: "string \<Rightarrow> hook_fetcher" where
  "useFetch base =
     \<lparr>requests = [], state = Map.empty, useFetch_baseURL = base, useFetch_pending = []\<rparr>"

text \<open>
  Line 8, \<open>setState(state => ({ ...state, loading: true }))\<close>, and the call of line 10.
  An object spread \<open>{ ...state, k: v }\<close> is the map \<open>state ++ [k \<mapsto> v]\<close>.
\<close>

definition useFetch_fetch_call ::
  "string \<Rightarrow> string \<Rightarrow> 'a hook_world_scheme \<Rightarrow> nat \<times> 'a hook_world_scheme" where
  "useFetch_fetch_call base path w =
     fetchJSON (base @ path)
       (snd (setState (\<lambda>state. state ++ [''loading'' \<mapsto> JBool True]) w))"

text \<open>Lines 9 to 16, run when the awaited promise has settled as \<open>r\<close>.\<close>

definition useFetch_fetch_resume :: "response settled \<Rightarrow> ('a hook_world_scheme, unit) js" where
  "useFetch_fetch_resume r =
     try_catch_finally
       (seq (await (fetchJSON_settled r)) (\<lambda>data.
          setState (\<lambda>state. state ++ [''data'' \<mapsto> data, ''error'' \<mapsto> Undefined])))
       (\<lambda>error. setState (\<lambda>state. state ++ [''error'' \<mapsto> error]))
       (setState (\<lambda>state. state ++ [''loading'' \<mapsto> JBool False]))"

definition useFetch_fetch_awaited ::
  "string \<Rightarrow> string \<Rightarrow> response settled \<Rightarrow> 'a hook_world_scheme
   \<Rightarrow> jsval settled \<times> 'a hook_world_scheme" where
  "useFetch_fetch_awaited base path r w =
     (case useFetch_fetch_resume r (snd (useFetch_fetch_call base path w)) of
        (c, w') \<Rightarrow> (async_result c, w'))"

section \<open>FetchState: what a consumer reads\<close>

text \<open>
  The consumers destructure \<open>{ loading, data, error }\<close> from the store object or from
  the hook's state; a property that is not there reads as \<open>undefined\<close>.
\<close>

record fetch_state =
  loading :: jsval
  data :: jsval
  error :: jsval

definition fetch_state_of :: "obj \<Rightarrow> fetch_state" where
  "fetch_state_of ob =
     \<lparr>loading = get_prop ob ''loading'', data = get_prop ob ''data'',
      error = get_prop ob ''error''\<rparr>"

section \<open>Overlapping calls of the store fetcher\<close>

text \<open>
  JavaScript runs one task at a time: a call of \<open>resource.fetch\<close> runs up to its
  \<open>await\<close> without interruption, and the rest of its body runs without interruption
  when its promise settles. So the life of a fetcher is a sequence of events:
  somebody calls \<open>fetch(path)\<close>, or the network settles the promise of request \<open>i\<close>.
  The settling of a promise nobody waits for changes nothing.
\<close>

datatype event = Call string | Settle nat "response settled"

fun step :: "fetcher \<Rightarrow> event \<Rightarrow> fetcher" where
  "step s (Call path) =
     (case fetch_call (baseURL s) path s of (i, s') \<Rightarrow> s'\<lparr>pending := pending s' @ [i]\<rparr>)"
| "step s (Settle i r) =
     (if i \<in> set (pending s)
      then (snd (fetch_resume r s))\<lparr>pending := removeAll i (pending s)\<rparr>
      else s)"

definition run :: "fetcher \<Rightarrow> event list \<Rightarrow> fetcher" where
  "run s evs = foldl step s evs"

text \<open>
  The same for the hook: the \<open>fetch\<close> callback of \<open>useFetch\<close> runs up to its
  \<open>await\<close> when it is called and from there to its end when its promise settles.
\<close>

fun useFetch_step :: "hook_fetcher \<Rightarrow> event \<Rightarrow> hook_fetcher" where
  "useFetch_step s (Call path) =
     (case useFetch_fetch_call (useFetch_baseURL s) path s of
        (i, s') \<Rightarrow> s'\<lparr>useFetch_pending := useFetch_pending s' @ [i]\<rparr>)"
| "useFetch_step s (Settle i r) =
     (if i \<in> set (useFetch_pending s)
      then (snd (useFetch_fetch_resume r s))
             \<lparr>useFetch_pending := removeAll i (useFetch_pending s)\<rparr>
      else s)"

definition useFetch_run :: "hook_fetcher \<Rightarrow> event list \<Rightarrow> hook_fetcher" where
  "useFetch_run s evs = foldl useFetch_step s evs"

text \<open>
  A sequence of events in which \<open>fetch\<close> is called only while no earlier call is in
  flight.
\<close>

fun sequential :: "fetcher \<Rightarrow> event list \<Rightarrow> bool" where
  "sequential s [] = True"
| "sequential s (Call path # evs) =
     (pending s = [] \<and> sequential (step s (Call path)) evs)"
| "sequential s (Settle i r # evs) = sequential (step s (Settle i r)) evs"

section \<open>The title holder\<close>

text \<open>
  \<open>document.title\<close> is the one piece of the page the title holder writes. An input's
  change event is known to the code through \<open>ev.target.value\<close>, a string.
\<close>

record dom =
  document_title :: string

record input_event =
  target_value :: string

subsection \<open>titleStore.js\<close>

record title_store = dom +
  title_value :: string

text \<open>The effect of line 8: \<open>document.title = title.value\<close>.\<close>

definition title_effect :: "title_store \<Rightarrow> title_store" where
  "title_effect s = s\<lparr>document_title := title_value s\<rparr>"

text \<open>
  Modelled from the spec: \<open>store\<close> and \<open>autoEffect\<close> belong to the reactive-store
  library, which is not part of the sources. The design notes give their contract,
  "rerun a callback whenever any store field it reads changes"; the library also runs
  the callback once when the effect is created. The only field the effect reads is
  \<open>title.value\<close>, so a write to it that changes it is followed by the effect.
\<close>

definition store_set_value :: "string \<Rightarrow> title_store \<Rightarrow> title_store" where
  "store_set_value v s =
     (if v = title_value s then s\<lparr>title_value := v\<rparr>
      else title_effect (s\<lparr>title_value := v\<rparr>))"

text \<open>
  \<open>titleStore(initalTitle)\<close> on a page \<open>d\<close>: the store is created with
  \<open>value: initalTitle\<close>, then \<open>autoEffect\<close> runs the effect for the first time.
\<close>

definition titleStore :: "string \<Rightarrow> dom \<Rightarrow> title_store" where
  "titleStore initalTitle d =
     title_effect \<lparr>document_title = document_title d, title_value = initalTitle\<rparr>"

text \<open>Line 6: \<open>onChange: ev => (title.value = ev.target.value)\<close>.\<close>

definition onChange :: "input_event \<Rightarrow> title_store \<Rightarrow> title_store" where
  "onChange ev s = store_set_value (target_value ev) s"

subsection \<open>useTitle.js\<close>

record title_hook = dom +
  title :: string

text \<open>The effect of \<open>useEffect(() => { document.title = title; }, [title])\<close>.\<close>

definition useTitle_effect :: "title_hook \<Rightarrow> title_hook" where
  "useTitle_effect s = s\<lparr>document_title := title s\<rparr>"

text \<open>
  \<open>useState\<close> and \<open>useEffect\<close> belong to the rendering library, which is not part of
  the sources; they are modelled by the contract the README relies on. \<open>setTitle(v)\<close>
  with a value other than the current one renders again, and after a render in which
  the dependency \<open>title\<close> differs from the render before, the effect runs;
  \<open>setTitle\<close> with the current value renders nothing new. The effect also runs after
  the first render.
\<close>

definition setTitle :: "string \<Rightarrow> title_hook \<Rightarrow> title_hook" where
  "setTitle v s =
     (if v = title s then s else useTitle_effect (s\<lparr>title := v\<rparr>))"

definition useTitle :: "string \<Rightarrow> dom \<Rightarrow> title_hook" where
  "useTitle initalTitle d =
     useTitle_effect \<lparr>document_title = document_title d, title = initalTitle\<rparr>"

text \<open>\<open>const onChange = useCallback(ev => setTitle(ev.target.value), [setTitle])\<close>.\<close>

definition useTitle_onChange :: "input_event \<Rightarrow> title_hook \<Rightarrow> title_hook" where
  "useTitle_onChange ev s = setTitle (target_value ev) s"

text \<open>A whole session of the input field: the change events in the order they arrive.\<close>

definition onChanges :: "input_event list \<Rightarrow> title_store \<Rightarrow> title_store" where
  "onChanges evs s = foldl (\<lambda>s ev. onChange ev s) s evs"

definition useTitle_onChanges :: "input_event list \<Rightarrow> title_hook \<Rightarrow> title_hook" where
  "useTitle_onChanges evs s = foldl (\<lambda>s ev. useTitle_onChange ev s) s evs"

section \<open>Vocabulary of the properties\<close>

text \<open>
  The two ways \<open>fetchJSON\<close> fails: the request itself is rejected, or the response
  arrives and \<open>resp.json()\<close> cannot decode its body. Each carries the thrown value.
\<close>

datatype failure = NetworkError jsval | DecodeError jsval

fun failed :: "failure \<Rightarrow> response settled" where
  "failed (NetworkError e) = Rejected e"
| "failed (DecodeError e) = Fulfilled (Response (Rejected e))"

fun failure_detail :: "failure \<Rightarrow> jsval" where
  "failure_detail (NetworkError e) = e"
| "failure_detail (DecodeError e) = e"

text \<open>A successful answer whose body decodes to \<open>d\<close>.\<close>

definition succeeded :: "jsval \<Rightarrow> response settled" where
  "succeeded d = Fulfilled (Response (Fulfilled d))"

text \<open>
  The \<open>loading\<close> property follows the request: \<open>true\<close> while a call is in flight;
  otherwise not set at all when no request was ever issued, and \<open>false\<close> after one was.
\<close>

definition loading_tracks_request :: "fetcher \<Rightarrow> bool" where
  "loading_tracks_request s =
     (resource s ''loading'' =
        (if pending s \<noteq> [] then Some (JBool True)
         else if requests s = [] then None
         else Some (JBool False)))"

text \<open>At most one call is in flight, and a call in flight has issued its request.\<close>

definition one_in_flight :: "fetcher \<Rightarrow> bool" where
  "one_in_flight s = (length (pending s) \<le> 1 \<and> (pending s = [] \<or> requests s \<noteq> []))"

text \<open>
  Two calls with nothing in between, \<open>fetch(p)\<close> then \<open>fetch(q)\<close>, and the two orders
  in which the network can answer them. The first call waits for promise
  \<open>length (requests s)\<close>, the second for the next one.
\<close>

definition overlapped :: "fetcher \<Rightarrow> string \<Rightarrow> string \<Rightarrow> fetcher" where
  "overlapped s p q = run s [Call p, Call q]"

definition first_then_second ::
  "fetcher \<Rightarrow> string \<Rightarrow> string \<Rightarrow> response settled \<Rightarrow> response settled \<Rightarrow> fetcher" where
  "first_then_second s p q r1 r2 =
     run (overlapped s p q)
       [Settle (length (requests s)) r1, Settle (Suc (length (requests s))) r2]"

definition second_then_first ::
  "fetcher \<Rightarrow> string \<Rightarrow> string \<Rightarrow> response settled \<Rightarrow> response settled \<Rightarrow> fetcher" where
  "second_then_first s p q r1 r2 =
     run (overlapped s p q)
       [Settle (Suc (length (requests s))) r2, Settle (length (requests s)) r1]"

section \<open>One call, step by step\<close>

lemma fetch_call_eq:
  "fetch_call b p w =
     (length (requests w),
      w\<lparr>requests := requests w @ [b @ p],
        resource := (resource w)(''loading'' \<mapsto> JBool True)\<rparr>)"
  by (simp add: fetch_call_def fetchJSON_def assign_def)

lemma fetch_resume_succeeded:
  "fetch_resume (succeeded d) w =
     (Inr (), w\<lparr>resource := (resource w)(''data'' \<mapsto> d, ''error'' \<mapsto> Undefined,
                                          ''loading'' \<mapsto> JBool False)\<rparr>)"
  by (simp add: fetch_resume_def try_catch_finally_def seq_def await_def assign_def
      fetchJSON_settled_def then_promise_def succeeded_def)

lemma fetch_resume_failed:
  "fetch_resume (failed f) w =
     (Inr (), w\<lparr>resource := (resource w)(''error'' \<mapsto> failure_detail f,
                                          ''loading'' \<mapsto> JBool False)\<rparr>)"
  by (cases f)
     (simp_all add: fetch_resume_def try_catch_finally_def seq_def await_def assign_def
       fetchJSON_settled_def then_promise_def)

lemma useFetch_fetch_call_eq:
  "useFetch_fetch_call b p w =
     (length (requests w),
      w\<lparr>requests := requests w @ [b @ p],
        state := (state w)(''loading'' \<mapsto> JBool True)\<rparr>)"
  by (simp add: useFetch_fetch_call_def fetchJSON_def setState_def)

lemma useFetch_fetch_resume_succeeded:
  "useFetch_fetch_resume (succeeded d) w =
     (Inr (), w\<lparr>state := (state w)(''data'' \<mapsto> d, ''error'' \<mapsto> Undefined,
                                    ''loading'' \<mapsto> JBool False)\<rparr>)"
  by (simp add: useFetch_fetch_resume_def try_catch_finally_def seq_def await_def
      setState_def fetchJSON_settled_def then_promise_def succeeded_def)

lemma useFetch_fetch_resume_failed:
  "useFetch_fetch_resume (failed f) w =
     (Inr (), w\<lparr>state := (state w)(''error'' \<mapsto> failure_detail f,
                                    ''loading'' \<mapsto> JBool False)\<rparr>)"
  by (cases f)
     (simp_all add: useFetch_fetch_resume_def try_catch_finally_def seq_def await_def
       setState_def fetchJSON_settled_def then_promise_def)

text \<open>Every answer of the network is a success or one of the two failures.\<close>

lemma response_cases:
  obtains d where "r = succeeded d" | f where "r = failed f"
proof (cases r)
  case (Rejected e)
  then have "r = failed (NetworkError e)" by simp
  then show ?thesis by (rule that(2))
next
  case (Fulfilled resp)
  show ?thesis
  proof (cases "json resp")
    case (Fulfilled d)
    with \<open>r = Fulfilled resp\<close> have "r = succeeded d"
      by (cases resp) (simp add: succeeded_def)
    then show ?thesis by (rule that(1))
  next
    case (Rejected e)
    with \<open>r = Fulfilled resp\<close> have "r = failed (DecodeError e)"
      by (cases resp) simp
    then show ?thesis by (rule that(2))
  qed
qed

lemma fetch_resume_completes: "fst (fetch_resume r w) = Inr ()"
  by (cases r rule: response_cases)
     (simp_all add: fetch_resume_succeeded fetch_resume_failed)

lemma useFetch_fetch_resume_completes: "fst (useFetch_fetch_resume r w) = Inr ()"
  by (cases r rule: response_cases)
     (simp_all add: useFetch_fetch_resume_succeeded useFetch_fetch_resume_failed)

lemma fetch_resume_requests: "requests (snd (fetch_resume r w)) = requests w"
  by (cases r rule: response_cases)
     (simp_all add: fetch_resume_succeeded fetch_resume_failed)

lemma useFetch_fetch_resume_requests:
  "requests (snd (useFetch_fetch_resume r w)) = requests w"
  by (cases r rule: response_cases)
     (simp_all add: useFetch_fetch_resume_succeeded useFetch_fetch_resume_failed)

lemma fetch_resume_loading:
  "resource (snd (fetch_resume r w)) ''loading'' = Some (JBool False)"
  by (cases r rule: response_cases)
     (simp_all add: fetch_resume_succeeded fetch_resume_failed)

lemma fetch_resume_pending: "pending (snd (fetch_resume r s)) = pending s"
  by (cases r rule: response_cases)
     (simp_all add: fetch_resume_succeeded fetch_resume_failed)

lemma fetch_resume_pending_update:
  "fetch_resume r (s\<lparr>pending := ps\<rparr>) =
     (fst (fetch_resume r s), (snd (fetch_resume r s))\<lparr>pending := ps\<rparr>)"
  by (cases r rule: response_cases)
     (simp_all add: fetch_resume_succeeded fetch_resume_failed)

lemma fetch_resume_baseURL: "baseURL (snd (fetch_resume r s)) = baseURL s"
  by (cases r rule: response_cases)
     (simp_all add: fetch_resume_succeeded fetch_resume_failed)

lemma step_baseURL: "baseURL (step s ev) = baseURL s"
  by (cases ev) (simp_all add: fetch_call_eq fetch_resume_baseURL)

lemma run_baseURL: "baseURL (run s evs) = baseURL s"
  unfolding run_def
  by (induction evs arbitrary: s) (simp_all add: step_baseURL)

lemma fetch_awaited_snd:
  "snd (fetch_awaited b p r w) = snd (fetch_resume r (snd (fetch_call b p w)))"
  by (simp add: fetch_awaited_def split: prod.splits)

lemma fetch_awaited_fst:
  "fst (fetch_awaited b p r w) =
     async_result (fst (fetch_resume r (snd (fetch_call b p w))))"
  by (simp add: fetch_awaited_def split: prod.splits)

lemma useFetch_fetch_awaited_snd:
  "snd (useFetch_fetch_awaited b p r w) =
     snd (useFetch_fetch_resume r (snd (useFetch_fetch_call b p w)))"
  by (simp add: useFetch_fetch_awaited_def split: prod.splits)

lemma useFetch_fetch_awaited_fst:
  "fst (useFetch_fetch_awaited b p r w) =
     async_result (fst (useFetch_fetch_resume r (snd (useFetch_fetch_call b p w))))"
  by (simp add: useFetch_fetch_awaited_def split: prod.splits)

section \<open>A call in flight while other calls start\<close>

text \<open>
  Between a call and the settling of its request other calls of \<open>fetch\<close> may start.
  As long as none completes, the object is the one from before the call with
  \<open>loading\<close> set to \<open>true\<close>, and the call is still in flight.
\<close>

lemma resource_step_Call:
  "resource (step s (Call p)) = (resource s)(''loading'' \<mapsto> JBool True)"
  by (simp add: fetch_call_eq)

lemma pending_step_Call:
  "pending (step s (Call p)) = pending s @ [length (requests s)]"
  by (simp add: fetch_call_eq)

lemma resource_step_Settle:
  "i \<in> set (pending s) \<Longrightarrow>
   resource (step s (Settle i r)) = resource (snd (fetch_resume r s))"
  by simp

lemma run_calls_resource:
  "resource (run (step s (Call p)) (map Call ps)) =
     (resource s)(''loading'' \<mapsto> JBool True)"
proof (induction ps arbitrary: s p)
  case Nil
  show ?case by (simp add: run_def resource_step_Call del: step.simps)
next
  case (Cons q ps)
  have "resource (run (step s (Call p)) (map Call (q # ps))) =
      resource (run (step (step s (Call p)) (Call q)) (map Call ps))"
    by (simp add: run_def del: step.simps)
  also have "\<dots> = (resource (step s (Call p)))(''loading'' \<mapsto> JBool True)"
    by (rule Cons.IH)
  also have "\<dots> = (resource s)(''loading'' \<mapsto> JBool True)"
    by (simp add: resource_step_Call del: step.simps)
  finally show ?case .
qed

lemma run_calls_pending:
  "i \<in> set (pending s) \<Longrightarrow> i \<in> set (pending (run s (map Call ps)))"
proof (induction ps arbitrary: s)
  case Nil
  then show ?case by (simp add: run_def)
next
  case (Cons q ps)
  from Cons.prems have "i \<in> set (pending (step s (Call q)))"
    by (simp add: pending_step_Call del: step.simps)
  from Cons.IH [OF this] show ?case
    by (simp add: run_def del: step.simps)
qed

lemma call_in_flight:
  "length (requests s) \<in> set (pending (run (step s (Call p)) (map Call ps)))"
  by (rule run_calls_pending) (simp add: pending_step_Call del: step.simps)

lemma failure_after_calls:
  "resource (step (run (step s (Call p)) (map Call ps))
       (Settle (length (requests s)) (failed f))) =
     (resource s)(''error'' \<mapsto> failure_detail f, ''loading'' \<mapsto> JBool False)"
proof -
  have "resource (step (run (step s (Call p)) (map Call ps))
        (Settle (length (requests s)) (failed f))) =
      resource (snd (fetch_resume (failed f) (run (step s (Call p)) (map Call ps))))"
    by (rule resource_step_Settle) (rule call_in_flight)
  also have "\<dots> = (resource (run (step s (Call p)) (map Call ps)))
      (''error'' \<mapsto> failure_detail f, ''loading'' \<mapsto> JBool False)"
    by (simp add: fetch_resume_failed)
  also have "\<dots> = (resource s)
      (''error'' \<mapsto> failure_detail f, ''loading'' \<mapsto> JBool False)"
    by (rule ext) (simp add: run_calls_resource del: step.simps)
  finally show ?thesis .
qed

lemma useFetch_fetch_resume_pending_update:
  "useFetch_fetch_resume r (s\<lparr>useFetch_pending := ps\<rparr>) =
     (fst (useFetch_fetch_resume r s),
      (snd (useFetch_fetch_resume r s))\<lparr>useFetch_pending := ps\<rparr>)"
  by (cases r rule: response_cases)
     (simp_all add: useFetch_fetch_resume_succeeded useFetch_fetch_resume_failed)

lemma state_useFetch_step_Call:
  "state (useFetch_step s (Call p)) = (state s)(''loading'' \<mapsto> JBool True)"
  by (simp add: useFetch_fetch_call_eq)

lemma pending_useFetch_step_Call:
  "useFetch_pending (useFetch_step s (Call p)) =
     useFetch_pending s @ [length (requests s)]"
  by (simp add: useFetch_fetch_call_eq)

lemma state_useFetch_step_Settle:
  "i \<in> set (useFetch_pending s) \<Longrightarrow>
   state (useFetch_step s (Settle i r)) = state (snd (useFetch_fetch_resume r s))"
  by simp

lemma useFetch_run_calls_state:
  "state (useFetch_run (useFetch_step s (Call p)) (map Call ps)) =
     (state s)(''loading'' \<mapsto> JBool True)"
proof (induction ps arbitrary: s p)
  case Nil
  show ?case
    by (simp add: useFetch_run_def state_useFetch_step_Call del: useFetch_step.simps)
next
  case (Cons q ps)
  have "state (useFetch_run (useFetch_step s (Call p)) (map Call (q # ps))) =
      state (useFetch_run (useFetch_step (useFetch_step s (Call p)) (Call q))
        (map Call ps))"
    by (simp add: useFetch_run_def del: useFetch_step.simps)
  also have "\<dots> = (state (useFetch_step s (Call p)))(''loading'' \<mapsto> JBool True)"
    by (rule Cons.IH)
  also have "\<dots> = (state s)(''loading'' \<mapsto> JBool True)"
    by (simp add: state_useFetch_step_Call del: useFetch_step.simps)
  finally show ?case .
qed

lemma useFetch_run_calls_pending:
  "i \<in> set (useFetch_pending s) \<Longrightarrow>
   i \<in> set (useFetch_pending (useFetch_run s (map Call ps)))"
proof (induction ps arbitrary: s)
  case Nil
  then show ?case by (simp add: useFetch_run_def)
next
  case (Cons q ps)
  from Cons.prems have "i \<in> set (useFetch_pending (useFetch_step s (Call q)))"
    by (simp add: pending_useFetch_step_Call del: useFetch_step.simps)
  from Cons.IH [OF this] show ?case
    by (simp add: useFetch_run_def del: useFetch_step.simps)
qed

lemma useFetch_call_in_flight:
  "length (requests s)
     \<in> set (useFetch_pending (useFetch_run (useFetch_step s (Call p)) (map Call ps)))"
  by (rule useFetch_run_calls_pending)
     (simp add: pending_useFetch_step_Call del: useFetch_step.simps)

lemma useFetch_failure_after_calls:
  "state (useFetch_step (useFetch_run (useFetch_step s (Call p)) (map Call ps))
       (Settle (length (requests s)) (failed f))) =
     (state s)(''error'' \<mapsto> failure_detail f, ''loading'' \<mapsto> JBool False)"
proof -
  have "state (useFetch_step (useFetch_run (useFetch_step s (Call p)) (map Call ps))
        (Settle (length (requests s)) (failed f))) =
      state (snd (useFetch_fetch_resume (failed f)
        (useFetch_run (useFetch_step s (Call p)) (map Call ps))))"
    by (rule state_useFetch_step_Settle) (rule useFetch_call_in_flight)
  also have "\<dots> = (state (useFetch_run (useFetch_step s (Call p)) (map Call ps)))
      (''error'' \<mapsto> failure_detail f, ''loading'' \<mapsto> JBool False)"
    by (simp add: useFetch_fetch_resume_failed)
  also have "\<dots> = (state s)
      (''error'' \<mapsto> failure_detail f, ''loading'' \<mapsto> JBool False)"
    by (rule ext) (simp add: useFetch_run_calls_state del: useFetch_step.simps)
  finally show ?thesis .
qed

text \<open>
  The repository's test, fetchStore.test.js: base \<open>https://test.com/\<close>, path
  \<open>resource\<close>, a mocked response whose \<open>json()\<close> gives \<open>"Some data"\<close>. Before the
  call \<open>loading\<close> and \<open>data\<close> are \<open>undefined\<close>; after the call \<open>loading\<close> is \<open>true\<close>
  and the global \<open>fetch\<close> was called with \<open>https://test.com/resource\<close>; after the
  promise was awaited \<open>loading\<close> is \<open>false\<close> and \<open>data\<close> is \<open>"Some data"\<close>.
\<close>

lemma fetchStore_test:
  "get_prop (resource (fetchStore ''https://test.com/'')) ''loading'' = Undefined"
  "get_prop (resource (fetchStore ''https://test.com/'')) ''data'' = Undefined"
  "get_prop (resource (snd (fetch_call ''https://test.com/'' ''resource''
       (fetchStore ''https://test.com/'')))) ''loading'' = JBool True"
  "requests (snd (fetch_call ''https://test.com/'' ''resource''
       (fetchStore ''https://test.com/''))) = [''https://test.com/resource'']"
  "get_prop (resource (snd (fetch_awaited ''https://test.com/'' ''resource''
       (succeeded (JStr ''Some data'')) (fetchStore ''https://test.com/'')))) ''loading''
     = JBool False"
  "get_prop (resource (snd (fetch_awaited ''https://test.com/'' ''resource''
       (succeeded (JStr ''Some data'')) (fetchStore ''https://test.com/'')))) ''data''
     = JStr ''Some data''"
  by (simp_all add: fetchStore_def fetch_call_eq fetch_awaited_snd fetch_resume_succeeded
      get_prop_def)

section \<open>The fetch lifecycle\<close>

text \<open>
  C1. Whatever the base address, the path and the state before the call: when the
  request succeeds and its body decodes to \<open>d\<close>, the state after \<open>fetch\<close> has
  resolved has \<open>data\<close> equal to \<open>d\<close>, \<open>error\<close> reading \<open>undefined\<close> (also when an
  earlier fetch had set it) and \<open>loading\<close> equal to \<open>false\<close>. This holds for the
  store (\<open>w\<close>) and for the hook (\<open>h\<close>).
\<close>

theorem fetch_success_state:
  "fetch_state_of (resource (snd (fetch_awaited b p (succeeded d) w))) =
     \<lparr>loading = JBool False, data = d, error = Undefined\<rparr>
   \<and> fetch_state_of (state (snd (useFetch_fetch_awaited b p (succeeded d) h))) =
     \<lparr>loading = JBool False, data = d, error = Undefined\<rparr>"
  by (simp add: fetch_awaited_snd useFetch_fetch_awaited_snd fetch_call_eq
      useFetch_fetch_call_eq fetch_resume_succeeded useFetch_fetch_resume_succeeded
      fetch_state_of_def get_prop_def)

text \<open>
  C2, as amended. Whatever the state before the call and the path: when the request
  fails, by a network error or by a body that does not decode, the state after
  \<open>fetch\<close> has resolved has \<open>error\<close> equal to the caught failure and \<open>loading\<close>
  equal to \<open>false\<close>, and the failing call has not written \<open>data\<close>: the \<open>data\<close>
  property is exactly what it was when the call resumed. So when no other call of
  \<open>fetch\<close> on the same fetcher completes between the call and its failure (others
  may start), \<open>data\<close> is exactly what it was before the call, set or not. This holds
  for the store (\<open>w\<close>, \<open>s\<close>) and for the hook (\<open>h\<close>, \<open>k\<close>).
\<close>

theorem fetch_failure_keeps_data:
  "get_prop (resource (snd (fetch_resume (failed f) w))) ''error'' = failure_detail f
   \<and> get_prop (resource (snd (fetch_resume (failed f) w))) ''loading'' = JBool False
   \<and> resource (snd (fetch_resume (failed f) w)) ''data'' = resource w ''data''
   \<and> get_prop (resource (step (run (step s (Call p)) (map Call ps))
         (Settle (length (requests s)) (failed f)))) ''error'' = failure_detail f
   \<and> get_prop (resource (step (run (step s (Call p)) (map Call ps))
         (Settle (length (requests s)) (failed f)))) ''loading'' = JBool False
   \<and> resource (step (run (step s (Call p)) (map Call ps))
         (Settle (length (requests s)) (failed f))) ''data'' = resource s ''data''
   \<and> resource (snd (fetch_awaited b p (failed f) w)) ''data'' = resource w ''data''
   \<and> get_prop (state (snd (useFetch_fetch_resume (failed f) h))) ''error''
       = failure_detail f
   \<and> get_prop (state (snd (useFetch_fetch_resume (failed f) h))) ''loading''
       = JBool False
   \<and> state (snd (useFetch_fetch_resume (failed f) h)) ''data'' = state h ''data''
   \<and> get_prop (state (useFetch_step (useFetch_run (useFetch_step k (Call p)) (map Call ps))
         (Settle (length (requests k)) (failed f)))) ''error'' = failure_detail f
   \<and> get_prop (state (useFetch_step (useFetch_run (useFetch_step k (Call p)) (map Call ps))
         (Settle (length (requests k)) (failed f)))) ''loading'' = JBool False
   \<and> state (useFetch_step (useFetch_run (useFetch_step k (Call p)) (map Call ps))
         (Settle (length (requests k)) (failed f))) ''data'' = state k ''data''
   \<and> state (snd (useFetch_fetch_awaited b p (failed f) h)) ''data'' = state h ''data''"
  by (simp add: failure_after_calls useFetch_failure_after_calls fetch_resume_failed
      useFetch_fetch_resume_failed fetch_awaited_snd useFetch_fetch_awaited_snd
      fetch_call_eq useFetch_fetch_call_eq get_prop_def
      del: step.simps useFetch_step.simps)

theorem fetch_failure_keeps_data_witness:
  "fetch_state_of (resource (step (run (step (fetchStore ''https://test.com/'') (Call ''a''))
       (map Call [''b'']))
       (Settle (length (requests (fetchStore ''https://test.com/'')))
          (failed (NetworkError (JError ''Failed to fetch''))))))
     = \<lparr>loading = JBool False, data = Undefined, error = JError ''Failed to fetch''\<rparr>
   \<and> resource (fetchStore ''https://test.com/'') ''data'' = None"
  using fetch_failure_keeps_data [of "NetworkError (JError ''Failed to fetch'')"
      "fetchStore ''https://test.com/''" "fetchStore ''https://test.com/''" "''a''"
      "[''b'']" "''https://test.com/''" "useFetch ''https://test.com/''"
      "useFetch ''https://test.com/''"]
  by (simp add: fetch_state_of_def get_prop_def fetchStore_def)

text \<open>
  The claim as it was stated fails when calls overlap. With base address
  \<open>https://test.com/\<close>, call \<open>fetch("a")\<close>, call \<open>fetch("b")\<close>, let the second
  request succeed with \<open>"B"\<close> and then the first one fail: when \<open>fetch("a")\<close> has
  resolved, \<open>error\<close> is its failure and \<open>loading\<close> is \<open>false\<close>, but \<open>data\<close> is \<open>"B"\<close>,
  while before the call of \<open>fetch("a")\<close> it was not set.
\<close>

theorem fetch_failure_data_counterexample:
  "resource (fetchStore ''https://test.com/'') ''data'' = None
   \<and> pending (run (fetchStore ''https://test.com/'')
        [Call ''a'', Call ''b'', Settle 1 (succeeded (JStr ''B''))]) = [0]
   \<and> pending (run (fetchStore ''https://test.com/'')
        [Call ''a'', Call ''b'', Settle 1 (succeeded (JStr ''B'')),
         Settle 0 (failed (NetworkError (JError ''Failed to fetch'')))]) = []
   \<and> resource (run (fetchStore ''https://test.com/'')
        [Call ''a'', Call ''b'', Settle 1 (succeeded (JStr ''B'')),
         Settle 0 (failed (NetworkError (JError ''Failed to fetch'')))]) ''error''
       = Some (JError ''Failed to fetch'')
   \<and> resource (run (fetchStore ''https://test.com/'')
        [Call ''a'', Call ''b'', Settle 1 (succeeded (JStr ''B'')),
         Settle 0 (failed (NetworkError (JError ''Failed to fetch'')))]) ''data''
       = Some (JStr ''B'')"
  by (simp add: run_def fetchStore_def fetch_call_eq fetch_resume_pending_update
      fetch_resume_succeeded fetch_resume_failed [of "NetworkError e" for e, simplified])

text \<open>
  C3. A call \<open>fetch(p)\<close> on a fetcher with base address \<open>b\<close> adds exactly one entry
  to the request log, the concatenation of \<open>b\<close> and \<open>p\<close>: the call issues it before
  it suspends, and nothing is issued when the call resumes, whatever the answer. The
  base address is the one the fetcher was constructed with, whatever happened to the
  fetcher since.
\<close>

theorem fetch_one_request:
  "requests (snd (fetch_call b p w)) = requests w @ [b @ p]
   \<and> requests (snd (fetch_awaited b p r w)) = requests w @ [b @ p]
   \<and> requests (step (run (fetchStore b) evs) (Call p)) =
       requests (run (fetchStore b) evs) @ [b @ p]
   \<and> requests (step (step (run (fetchStore b) evs) (Call p))
         (Settle (length (requests (run (fetchStore b) evs))) r)) =
       requests (run (fetchStore b) evs) @ [b @ p]
   \<and> useFetch_baseURL (useFetch b) = b
   \<and> requests (snd (useFetch_fetch_call b p h)) = requests h @ [b @ p]
   \<and> requests (snd (useFetch_fetch_awaited b p r h)) = requests h @ [b @ p]"
proof -
  have closure: "baseURL (run (fetchStore b) evs) = b"
    by (simp add: run_baseURL fetchStore_def)
  have called: "requests (step (run (fetchStore b) evs) (Call p)) =
      requests (run (fetchStore b) evs) @ [b @ p]"
    using closure by (simp add: fetch_call_eq)
  have settled: "requests (step (step (run (fetchStore b) evs) (Call p))
        (Settle (length (requests (run (fetchStore b) evs))) r)) =
      requests (run (fetchStore b) evs) @ [b @ p]"
    using closure
    by (simp add: fetch_call_eq fetch_resume_pending_update fetch_resume_requests)
  from called settled show ?thesis
    by (simp add: fetch_awaited_snd useFetch_fetch_awaited_snd fetch_resume_requests
        useFetch_fetch_resume_requests fetch_call_eq useFetch_fetch_call_eq useFetch_def)
qed

text \<open>
  C5. Whatever the path and whatever the network answers (success, network failure or
  a body that does not decode), the body of \<open>fetch\<close> ends without throwing, so the
  promise \<open>fetch\<close> returns is fulfilled (with \<open>undefined\<close>), never rejected; a
  failure shows only as the stored \<open>error\<close>.
\<close>

theorem fetch_never_rejects:
  "fst (fetch_awaited b p r w) = Fulfilled Undefined
   \<and> fst (useFetch_fetch_awaited b p r h) = Fulfilled Undefined
   \<and> get_prop (resource (snd (fetch_awaited b p (failed f) w))) ''error'' = failure_detail f
   \<and> get_prop (state (snd (useFetch_fetch_awaited b p (failed f) h))) ''error''
       = failure_detail f"
  by (simp add: fetch_awaited_fst useFetch_fetch_awaited_fst fetch_resume_completes
      useFetch_fetch_resume_completes async_result_def fetch_awaited_snd
      useFetch_fetch_awaited_snd fetch_resume_failed useFetch_fetch_resume_failed
      get_prop_def)

text \<open>
  C6. Whatever the base address, a fetcher that was just constructed, before any call
  of \<open>fetch\<close>, has no \<open>loading\<close>, no \<open>data\<close> and no \<open>error\<close> property: each reads
  \<open>undefined\<close>, so \<open>loading\<close> is falsy. No request has been issued and no call is in
  flight. The hook's state starts as the empty object.
\<close>

theorem fresh_fetcher_state:
  "resource (fetchStore b) ''loading'' = None
   \<and> resource (fetchStore b) ''data'' = None
   \<and> resource (fetchStore b) ''error'' = None
   \<and> fetch_state_of (resource (fetchStore b)) =
       \<lparr>loading = Undefined, data = Undefined, error = Undefined\<rparr>
   \<and> \<not> truthy (loading (fetch_state_of (resource (fetchStore b))))
   \<and> requests (fetchStore b) = [] \<and> pending (fetchStore b) = []
   \<and> state (useFetch b) = Map.empty
   \<and> fetch_state_of (state (useFetch b)) =
       \<lparr>loading = Undefined, data = Undefined, error = Undefined\<rparr>
   \<and> \<not> truthy (loading (fetch_state_of (state (useFetch b))))"
  by (simp add: fetchStore_def useFetch_def fetch_state_of_def get_prop_def)

text \<open>
  C8, as amended. Starting a fetch changes the \<open>loading\<close> property and nothing else
  of the state: right after the call the object is the one from before the call with
  \<open>loading\<close> set to \<open>true\<close>. During the pending phase, as long as no call of
  \<open>fetch\<close> on the same fetcher completes (others may start), the call is still in
  flight and the object is still that one, so \<open>data\<close> and \<open>error\<close> are exactly what
  they were before the call. This holds for the store (\<open>w\<close>, \<open>s\<close>) and for the hook
  (\<open>h\<close>, \<open>k\<close>).
\<close>

theorem fetch_pending_frame:
  "resource (snd (fetch_call b p w)) = (resource w)(''loading'' \<mapsto> JBool True)
   \<and> resource (snd (fetch_call b p w)) ''data'' = resource w ''data''
   \<and> resource (snd (fetch_call b p w)) ''error'' = resource w ''error''
   \<and> length (requests s) \<in> set (pending (run (step s (Call p)) (map Call ps)))
   \<and> resource (run (step s (Call p)) (map Call ps)) =
       (resource s)(''loading'' \<mapsto> JBool True)
   \<and> resource (run (step s (Call p)) (map Call ps)) ''data'' = resource s ''data''
   \<and> resource (run (step s (Call p)) (map Call ps)) ''error'' = resource s ''error''
   \<and> state (snd (useFetch_fetch_call b p h)) = (state h)(''loading'' \<mapsto> JBool True)
   \<and> state (snd (useFetch_fetch_call b p h)) ''data'' = state h ''data''
   \<and> state (snd (useFetch_fetch_call b p h)) ''error'' = state h ''error''
   \<and> length (requests k)
       \<in> set (useFetch_pending (useFetch_run (useFetch_step k (Call p)) (map Call ps)))
   \<and> state (useFetch_run (useFetch_step k (Call p)) (map Call ps)) =
       (state k)(''loading'' \<mapsto> JBool True)
   \<and> state (useFetch_run (useFetch_step k (Call p)) (map Call ps)) ''data''
       = state k ''data''
   \<and> state (useFetch_run (useFetch_step k (Call p)) (map Call ps)) ''error''
       = state k ''error''"
  by (simp add: fetch_call_eq useFetch_fetch_call_eq run_calls_resource call_in_flight
      useFetch_run_calls_state useFetch_call_in_flight
      del: step.simps useFetch_step.simps)

theorem fetch_pending_frame_witness:
  "pending (run (step (fetchStore ''https://test.com/'') (Call ''a'')) (map Call [''b'']))
     = [0, 1]
   \<and> fetch_state_of (resource
        (run (step (fetchStore ''https://test.com/'') (Call ''a'')) (map Call [''b''])))
     = \<lparr>loading = JBool True, data = Undefined, error = Undefined\<rparr>"
proof -
  have p: "pending (run (step (fetchStore ''https://test.com/'') (Call ''a''))
      (map Call [''b''])) = [0, 1]"
    by (simp add: run_def fetchStore_def fetch_call_eq)
  from p fetch_pending_frame [of "''https://test.com/''" "''a''"
      "fetchStore ''https://test.com/''" "fetchStore ''https://test.com/''" "[''b'']"
      "useFetch ''https://test.com/''" "useFetch ''https://test.com/''"]
  show ?thesis
    by (simp add: fetch_state_of_def get_prop_def fetchStore_def)
qed

text \<open>
  The claim as it was stated fails when calls overlap. With base address
  \<open>https://test.com/\<close>, call \<open>fetch("a")\<close>, call \<open>fetch("b")\<close> and let the first
  request succeed with \<open>"A"\<close>: the call of \<open>fetch("b")\<close> is still in flight, its
  request not settled, and \<open>data\<close> is \<open>"A"\<close>, while before the call of \<open>fetch("b")\<close>
  it was not set.
\<close>

theorem fetch_pending_frame_counterexample:
  "resource (run (fetchStore ''https://test.com/'') [Call ''a'']) ''data'' = None
   \<and> pending (run (fetchStore ''https://test.com/'')
        [Call ''a'', Call ''b'', Settle 0 (succeeded (JStr ''A''))]) = [1]
   \<and> resource (run (fetchStore ''https://test.com/'')
        [Call ''a'', Call ''b'', Settle 0 (succeeded (JStr ''A''))]) ''data''
       = Some (JStr ''A'')
   \<and> resource (run (fetchStore ''https://test.com/'') [Call ''a'']) ''error'' = None
   \<and> resource (run (fetchStore ''https://test.com/'')
        [Call ''a'', Call ''b'', Settle 0 (succeeded (JStr ''A''))]) ''error''
       = Some Undefined"
  by (simp add: run_def fetchStore_def fetch_call_eq fetch_resume_pending_update
      fetch_resume_succeeded)

section \<open>The store and the hook agree\<close>

text \<open>
  C9. The store and the hook realise the same transition of the fetch state: started
  on states that read the same \<open>{loading, data, error}\<close>, with the same base address,
  path and answer of the network, they read the same while the call is suspended and
  the same once it has resolved, and their promises settle alike.
\<close>

theorem store_hook_same_transition:
  assumes "fetch_state_of (resource w) = fetch_state_of (state h)"
  shows "fetch_state_of (resource (snd (fetch_call b p w))) =
           fetch_state_of (state (snd (useFetch_fetch_call b p h)))
       \<and> fetch_state_of (resource (snd (fetch_awaited b p r w))) =
           fetch_state_of (state (snd (useFetch_fetch_awaited b p r h)))
       \<and> fst (fetch_awaited b p r w) = fst (useFetch_fetch_awaited b p r h)"
proof -
  from assms have eqs:
    "get_prop (resource w) ''data'' = get_prop (state h) ''data''"
    "get_prop (resource w) ''error'' = get_prop (state h) ''error''"
    by (simp_all add: fetch_state_of_def)
  have suspended: "fetch_state_of (resource (snd (fetch_call b p w))) =
      fetch_state_of (state (snd (useFetch_fetch_call b p h)))"
    using eqs
    by (simp add: fetch_call_eq useFetch_fetch_call_eq fetch_state_of_def get_prop_def)
  have resolved: "fetch_state_of (resource (snd (fetch_awaited b p r w))) =
      fetch_state_of (state (snd (useFetch_fetch_awaited b p r h)))"
  proof (cases r rule: response_cases)
    case (1 d)
    then show ?thesis
      by (simp add: fetch_awaited_snd useFetch_fetch_awaited_snd fetch_call_eq
          useFetch_fetch_call_eq fetch_resume_succeeded useFetch_fetch_resume_succeeded
          fetch_state_of_def get_prop_def)
  next
    case (2 f)
    then show ?thesis using eqs
      by (simp add: fetch_awaited_snd useFetch_fetch_awaited_snd fetch_call_eq
          useFetch_fetch_call_eq fetch_resume_failed useFetch_fetch_resume_failed
          fetch_state_of_def get_prop_def)
  qed
  have promise: "fst (fetch_awaited b p r w) = fst (useFetch_fetch_awaited b p r h)"
    by (simp add: fetch_awaited_fst useFetch_fetch_awaited_fst fetch_resume_completes
        useFetch_fetch_resume_completes)
  from suspended resolved promise show ?thesis by simp
qed

theorem store_hook_same_transition_witness:
  "fetch_state_of (resource (fetchStore ''https://test.com/'')) =
     fetch_state_of (state (useFetch ''https://test.com/''))
   \<and> fetch_state_of (resource (snd (fetch_awaited ''https://test.com/'' ''resource''
        (succeeded (JStr ''Some data'')) (fetchStore ''https://test.com/'')))) =
     fetch_state_of (state (snd (useFetch_fetch_awaited ''https://test.com/'' ''resource''
        (succeeded (JStr ''Some data'')) (useFetch ''https://test.com/''))))
   \<and> fetch_state_of (state (snd (useFetch_fetch_awaited ''https://test.com/'' ''resource''
        (succeeded (JStr ''Some data'')) (useFetch ''https://test.com/'')))) =
     \<lparr>loading = JBool False, data = JStr ''Some data'', error = Undefined\<rparr>"
proof -
  have h: "fetch_state_of (resource (fetchStore ''https://test.com/'')) =
     fetch_state_of (state (useFetch ''https://test.com/''))"
    by (simp add: fetch_state_of_def fetchStore_def useFetch_def get_prop_def)
  have v: "fetch_state_of (state (snd (useFetch_fetch_awaited ''https://test.com/''
        ''resource'' (succeeded (JStr ''Some data'')) (useFetch ''https://test.com/'')))) =
     \<lparr>loading = JBool False, data = JStr ''Some data'', error = Undefined\<rparr>"
    by (simp add: useFetch_fetch_awaited_snd useFetch_fetch_call_eq
        useFetch_fetch_resume_succeeded fetch_state_of_def get_prop_def useFetch_def)
  from h v store_hook_same_transition [OF h, of "''https://test.com/''" "''resource''"
      "succeeded (JStr ''Some data'')"]
  show ?thesis by simp
qed

section \<open>The loading flag over the life of a fetcher\<close>

lemma step_keeps_loading:
  assumes "loading_tracks_request s" and "one_in_flight s" and "sequential s [ev]"
  shows "loading_tracks_request (step s ev) \<and> one_in_flight (step s ev)"
proof (cases ev)
  case (Call path)
  with assms show ?thesis
    by (simp add: fetch_call_eq loading_tracks_request_def one_in_flight_def)
next
  case (Settle i r)
  show ?thesis
  proof (cases "i \<in> set (pending s)")
    case True
    with assms(2) have "pending s = [i]" and "requests s \<noteq> []"
      by (cases "pending s"; auto simp: one_in_flight_def)+
    with Settle show ?thesis
      by (simp add: loading_tracks_request_def one_in_flight_def fetch_resume_loading
          fetch_resume_requests)
  next
    case False
    with assms Settle show ?thesis by simp
  qed
qed

lemma run_keeps_loading:
  "loading_tracks_request s \<Longrightarrow> one_in_flight s \<Longrightarrow> sequential s evs
   \<Longrightarrow> loading_tracks_request (run s evs) \<and> one_in_flight (run s evs)"
proof (induction evs arbitrary: s)
  case Nil
  then show ?case by (simp add: run_def)
next
  case (Cons ev evs)
  have now: "sequential s [ev]"
    using Cons.prems(3) by (cases ev) simp_all
  have later: "sequential (step s ev) evs"
    using Cons.prems(3) by (cases ev) simp_all
  from step_keeps_loading [OF Cons.prems(1,2) now]
  have "loading_tracks_request (step s ev)" and "one_in_flight (step s ev)"
    by simp_all
  from Cons.IH [OF this later] show ?case
    by (simp add: run_def)
qed

lemma sequential_take: "sequential s evs \<Longrightarrow> sequential s (take n evs)"
proof (induction evs arbitrary: s n)
  case Nil
  then show ?case by simp
next
  case (Cons ev evs)
  show ?case
  proof (cases n)
    case 0
    then show ?thesis by simp
  next
    case (Suc m)
    with Cons show ?thesis by (cases ev) simp_all
  qed
qed

text \<open>
  C4, as amended. On a new fetcher, as long as \<open>fetch\<close> is called only while no
  earlier call is in flight, at every moment (after any number \<open>n\<close> of the events)
  \<open>loading\<close> is \<open>true\<close> exactly while a request is in flight: it is set to \<open>true\<close> by
  the call and stays so until the request settles, and it is \<open>false\<close> once the call
  has completed, whether it succeeded or failed. Before the first call \<open>loading\<close> is
  not set (it reads \<open>undefined\<close>); before a later call it is \<open>false\<close>.
\<close>

theorem fetch_loading_sequential:
  assumes "sequential (fetchStore b) evs"
  shows "loading_tracks_request (run (fetchStore b) (take n evs))"
proof -
  have "loading_tracks_request (fetchStore b)" and "one_in_flight (fetchStore b)"
    by (simp_all add: loading_tracks_request_def one_in_flight_def fetchStore_def)
  with run_keeps_loading [OF _ _ sequential_take [OF assms]] show ?thesis
    by simp
qed

theorem fetch_loading_sequential_witness:
  "sequential (fetchStore ''https://test.com/'')
     [Call ''resource'', Settle 0 (succeeded (JStr ''Some data'')),
      Call ''other'', Settle 1 (failed (NetworkError (JError ''Failed to fetch'')))]
   \<and> loading_tracks_request (run (fetchStore ''https://test.com/'')
       (take 3 [Call ''resource'', Settle 0 (succeeded (JStr ''Some data'')),
          Call ''other'', Settle 1 (failed (NetworkError (JError ''Failed to fetch'')))]))
   \<and> pending (run (fetchStore ''https://test.com/'')
       (take 3 [Call ''resource'', Settle 0 (succeeded (JStr ''Some data'')),
          Call ''other'', Settle 1 (failed (NetworkError (JError ''Failed to fetch'')))]))
       = [1]"
proof -
  have h: "sequential (fetchStore ''https://test.com/'')
     [Call ''resource'', Settle 0 (succeeded (JStr ''Some data'')),
      Call ''other'', Settle 1 (failed (NetworkError (JError ''Failed to fetch'')))]"
    by (simp add: fetchStore_def fetch_call_eq fetch_resume_succeeded
        fetch_resume_failed [of "NetworkError e" for e, simplified])
  have p: "pending (run (fetchStore ''https://test.com/'')
       (take 3 [Call ''resource'', Settle 0 (succeeded (JStr ''Some data'')),
          Call ''other'', Settle 1 (failed (NetworkError (JError ''Failed to fetch'')))]))
       = [1]"
    by (simp add: run_def fetchStore_def fetch_call_eq fetch_resume_succeeded)
  from h p fetch_loading_sequential [OF h, of 3] show ?thesis
    by simp
qed

text \<open>
  The claim as it was stated fails. With base address \<open>https://test.com/\<close>, call
  \<open>fetch("a")\<close>, call \<open>fetch("b")\<close> while the first is in flight, and let the first
  request succeed: request 1 is still in flight and \<open>loading\<close> is \<open>false\<close>. Also,
  before the second call \<open>loading\<close> was \<open>true\<close>, and before the first it was
  \<open>undefined\<close>, not \<open>false\<close>.
\<close>

theorem fetch_loading_counterexample:
  "pending (run (fetchStore ''https://test.com/'')
      [Call ''a'', Call ''b'', Settle 0 (succeeded (JStr ''Some data''))]) = [1]
   \<and> get_prop (resource (run (fetchStore ''https://test.com/'')
      [Call ''a'', Call ''b'', Settle 0 (succeeded (JStr ''Some data''))])) ''loading''
       = JBool False
   \<and> pending (run (fetchStore ''https://test.com/'') [Call ''a'']) = [0]
   \<and> get_prop (resource (run (fetchStore ''https://test.com/'') [Call ''a''])) ''loading''
       = JBool True
   \<and> get_prop (resource (fetchStore ''https://test.com/'')) ''loading'' = Undefined"
  by (simp add: run_def fetchStore_def fetch_call_eq fetch_resume_succeeded get_prop_def)

section \<open>Overlapping calls\<close>

text \<open>
  C7. Calling \<open>fetch\<close> again while a call is in flight issues a second request next
  to the first; neither call fails and neither is cancelled, both are in flight. Each
  completion then acts on the state the earlier completion left, so the call that
  completes last writes last: if it succeeded with \<open>d\<close> the state ends as
  \<open>{loading: false, data: d, error: undefined}\<close> whatever the other call brought, if it
  failed the state ends with its failure as \<open>error\<close>. Which call that is depends on the
  order in which the network answers, not on the order of the calls.
\<close>

theorem overlapping_fetch_last_completion_wins:
  "requests (overlapped s p q) = requests s @ [baseURL s @ p, baseURL s @ q]
   \<and> pending (overlapped s p q) =
       pending s @ [length (requests s), Suc (length (requests s))]
   \<and> resource (first_then_second s p q r1 r2) =
       resource (snd (fetch_resume r2 (snd (fetch_resume r1 (overlapped s p q)))))
   \<and> resource (second_then_first s p q r1 r2) =
       resource (snd (fetch_resume r1 (snd (fetch_resume r2 (overlapped s p q)))))
   \<and> fetch_state_of (resource (first_then_second s p q r1 (succeeded d2))) =
       \<lparr>loading = JBool False, data = d2, error = Undefined\<rparr>
   \<and> fetch_state_of (resource (second_then_first s p q (succeeded d1) r2)) =
       \<lparr>loading = JBool False, data = d1, error = Undefined\<rparr>
   \<and> get_prop (resource (first_then_second s p q r1 (failed f2))) ''error''
       = failure_detail f2
   \<and> get_prop (resource (second_then_first s p q (failed f1) r2)) ''error''
       = failure_detail f1
   \<and> pending (first_then_second s p q r1 r2) =
       removeAll (Suc (length (requests s))) (removeAll (length (requests s)) (pending s))
   \<and> pending (second_then_first s p q r1 r2) =
       removeAll (length (requests s)) (removeAll (Suc (length (requests s))) (pending s))"
  by (simp add: overlapped_def first_then_second_def second_then_first_def run_def
      fetch_call_eq fetch_resume_pending_update fetch_resume_pending
      fetch_resume_succeeded fetch_resume_failed fetch_state_of_def get_prop_def)

section \<open>The title holder keeps the document title\<close>

lemma onChange_keeps_sync:
  "document_title s = title_value s \<Longrightarrow>
   document_title (onChange ev s) = title_value (onChange ev s)"
  by (simp add: onChange_def store_set_value_def title_effect_def)

lemma onChanges_keeps_sync:
  "document_title s = title_value s \<Longrightarrow>
   document_title (onChanges evs s) = title_value (onChanges evs s)"
  unfolding onChanges_def
  by (induction evs arbitrary: s) (simp_all add: onChange_keeps_sync)

lemma useTitle_onChange_keeps_sync:
  "document_title s = title s \<Longrightarrow>
   document_title (useTitle_onChange ev s) = title (useTitle_onChange ev s)"
  by (simp add: useTitle_onChange_def setTitle_def useTitle_effect_def)

lemma useTitle_onChanges_keeps_sync:
  "document_title s = title s \<Longrightarrow>
   document_title (useTitle_onChanges evs s) = title (useTitle_onChanges evs s)"
  unfolding useTitle_onChanges_def
  by (induction evs arbitrary: s) (simp_all add: useTitle_onChange_keeps_sync)

text \<open>
  C10. The title holder keeps the document title equal to the value it holds. After a
  change event whose target value is \<open>v\<close> the held value is \<open>v\<close>; whenever that changed
  the held value, the document title is that value afterwards; and from its creation
  on, after any sequence of change events, the document title equals the held value.
  This holds for \<open>titleStore\<close> and for \<open>useTitle\<close>.
\<close>

theorem title_synchronized:
  "title_value (onChange ev s) = target_value ev
   \<and> (title_value (onChange ev s) \<noteq> title_value s \<longrightarrow>
        document_title (onChange ev s) = title_value (onChange ev s))
   \<and> document_title (onChanges evs (titleStore t d)) =
        title_value (onChanges evs (titleStore t d))
   \<and> title (useTitle_onChange ev h) = target_value ev
   \<and> (title (useTitle_onChange ev h) \<noteq> title h \<longrightarrow>
        document_title (useTitle_onChange ev h) = title (useTitle_onChange ev h))
   \<and> document_title (useTitle_onChanges evs (useTitle t d)) =
        title (useTitle_onChanges evs (useTitle t d))"
proof -
  have held: "title_value (onChange ev s) = target_value ev"
    by (simp add: onChange_def store_set_value_def title_effect_def)
  have changed: "title_value (onChange ev s) \<noteq> title_value s \<longrightarrow>
      document_title (onChange ev s) = title_value (onChange ev s)"
    by (simp add: onChange_def store_set_value_def title_effect_def)
  have always: "document_title (onChanges evs (titleStore t d)) =
      title_value (onChanges evs (titleStore t d))"
    by (rule onChanges_keeps_sync) (simp add: titleStore_def title_effect_def)
  have held': "title (useTitle_onChange ev h) = target_value ev"
    by (simp add: useTitle_onChange_def setTitle_def useTitle_effect_def)
  have changed': "title (useTitle_onChange ev h) \<noteq> title h \<longrightarrow>
      document_title (useTitle_onChange ev h) = title (useTitle_onChange ev h)"
    by (simp add: useTitle_onChange_def setTitle_def useTitle_effect_def)
  have always': "document_title (useTitle_onChanges evs (useTitle t d)) =
      title (useTitle_onChanges evs (useTitle t d))"
    by (rule useTitle_onChanges_keeps_sync) (simp add: useTitle_def useTitle_effect_def)
  from held changed always held' changed' always' show ?thesis
    by simp
qed

theorem title_synchronized_witness:
  "title_value (onChange \<lparr>target_value = ''pikachu''\<rparr>
       \<lparr>document_title = ''old'', title_value = ''ditto''\<rparr>) = ''pikachu''
   \<and> title_value (onChange \<lparr>target_value = ''pikachu''\<rparr>
       \<lparr>document_title = ''old'', title_value = ''ditto''\<rparr>) \<noteq> ''ditto''
   \<and> document_title (onChange \<lparr>target_value = ''pikachu''\<rparr>
       \<lparr>document_title = ''old'', title_value = ''ditto''\<rparr>) = ''pikachu''
   \<and> title (useTitle_onChange \<lparr>target_value = ''pikachu''\<rparr>
       \<lparr>document_title = ''old'', title = ''ditto''\<rparr>) \<noteq> ''ditto''
   \<and> document_title (useTitle_onChange \<lparr>target_value = ''pikachu''\<rparr>
       \<lparr>document_title = ''old'', title = ''ditto''\<rparr>) = ''pikachu''"
  using title_synchronized [of "\<lparr>target_value = ''pikachu''\<rparr>"
      "\<lparr>document_title = ''old'', title_value = ''ditto''\<rparr>" "[]" "''ditto''"
      "\<lparr>document_title = ''old''\<rparr>" "\<lparr>document_title = ''old'', title = ''ditto''\<rparr>"]
  by simp

end
